theory Spec2Isabelle
  imports Main "HOL-Library.Sublist"
begin

section \<open>The time change listener: a supervised child process\<close>

text \<open>
  The source is \<^verbatim>\<open>lib/time_change_listener/time_change_listener.js\<close>: the class
  \<^verbatim>\<open>Time_change_listener\<close> builds a native program with \<^verbatim>\<open>make\<close>, spawns it, and
  talks to it over its three standard streams. Two \<^verbatim>\<open>async\<close> methods read the child's
  output and error streams line by line; \<^verbatim>\<open>enable\<close>, \<^verbatim>\<open>disable\<close> and \<^verbatim>\<open>finalize\<close>
  write commands to its input.

  JavaScript runs the class on one thread. An \<^verbatim>\<open>async\<close> method runs until its
  \<^verbatim>\<open>await\<close>, and resumes when the main loop delivers the completion of the read it is
  waiting for. The model is therefore a state machine: each owner call and each read
  completion is one atomic step on the state of the object and of its surroundings.
  What the surroundings answer (is a program on the path, did the build succeed, did a
  write fail, what did a read deliver) is an input of the step.
\<close>

subsection \<open>Values\<close>

text \<open>
  Exceptions: a JavaScript \<^verbatim>\<open>Error\<close> made with \<^verbatim>\<open>new Error(message)\<close>, or the
  \<^verbatim>\<open>GLib.Error\<close> that a failing Gio call throws. Both carry a \<^verbatim>\<open>message\<close>.
\<close>

datatype exn = Error string | GLibError string

fun message :: "exn \<Rightarrow> string" where
  "message (Error m) = m"
| "message (GLibError m) = m"

text \<open>How a call ends: it returns, it throws, or it never comes back.\<close>

datatype status = Returned | Thrown exn | Blocked

text \<open>
  What an asynchronous \<^verbatim>\<open>read_line_async\<close> completes with: a line (without its
  terminator), the end of the stream, or a failure.
\<close>

datatype read_result = Line string | Eof | ReadFailed string

text \<open>
  \<^verbatim>\<open>read_line_finish\<close> returns the pair of the line and its length, \<^verbatim>\<open>[null, 0]\<close> at the
  end of the stream, and throws on a failed read.
\<close>

fun read_line_finish :: "read_result \<Rightarrow> exn + (string option \<times> nat)" where
  "read_line_finish (Line l) = Inr (Some l, length l)"
| "read_line_finish Eof = Inr (None, 0)"
| "read_line_finish (ReadFailed m) = Inl (GLibError m)"

text \<open>The outcome of a blocking \<^verbatim>\<open>write\<close> on the child's input pipe.\<close>

datatype write_outcome = Written | WriteFailed string

text \<open>
  The error callback is called with two kinds of argument: the text built from a line
  of the error stream, and the exception object caught from a failed read.
\<close>

datatype err_arg = Message string | Failure exn

datatype pipe = Stdin_pipe | Stdout_pipe | Stderr_pipe

definition EXECUTABLE_NAME :: string where
  "EXECUTABLE_NAME = ''auto-dark-light-time-change-listener''"

definition newline :: string where
  "newline = [CHR 0x0A]"

subsection \<open>The object and its surroundings\<close>

text \<open>
  The seven private fields of the class (\<^verbatim>\<open>#output\<close> is \<open>output_stream\<close> here).
  The callbacks are functions of the owner; all the model knows of them is that they
  act on the owner's own state \<open>'w\<close>.
\<close>

record 'w listener =
  callback_when_change :: "'w \<Rightarrow> 'w"
  callback_for_errors :: "err_arg \<Rightarrow> 'w \<Rightarrow> 'w"
  subprocess :: "string list"
  input :: pipe
  input_error :: pipe
  output_stream :: pipe
  end_listen :: bool

text \<open>
  Around the object: the owner's state, whether each \<^verbatim>\<open>async\<close> method is suspended on
  an outstanding read, the buffers written so far to the child's input, the argument
  vectors of the subprocesses started, and whether the child is known to have exited.
\<close>

record 'w sys =
  obj :: "'w listener"
  owner :: 'w
  input_reading :: bool
  error_reading :: bool
  child_stdin :: "string list"
  spawned :: "string list list"
  reaped :: bool

text \<open>
  What the constructor finds around it: the lookup on the command search path, and the
  outcomes of \<^verbatim>\<open>compilation.init\<close>, \<^verbatim>\<open>communicate_utf8\<close> (the captured error text, or
  a thrown error), \<^verbatim>\<open>get_successful\<close> and of the \<^verbatim>\<open>init\<close> of the child.
\<close>

record env =
  find_program_in_path :: "string \<Rightarrow> string option"
  make_init :: "exn option"
  make_communicate :: "exn + string"
  make_successful :: bool
  child_init :: "exn option"

text \<open>JavaScript truthiness of a value that is \<^verbatim>\<open>null\<close> or a string.\<close>

fun truthy :: "string option \<Rightarrow> bool" where
  "truthy None = False"
| "truthy (Some p) = (p \<noteq> [])"

subsection \<open>The two read loops\<close>

text \<open>
  \<^verbatim>\<open>#listen_input\<close>. Entering the \<^verbatim>\<open>do\<close> body issues a read and suspends. The
  completion resolves the promise with the stream object: \<^verbatim>\<open>read_line_finish\<close> is never
  called, so the continuation does not depend on what the read delivered. It calls the
  change callback and tests the flag.
\<close>

definition listen_input :: "'w sys \<Rightarrow> 'w sys" where
  "listen_input s = s\<lparr>input_reading := True\<rparr>"

definition listen_input_resume :: "read_result \<Rightarrow> 'w sys \<Rightarrow> 'w sys" where
  "listen_input_resume r s =
     (let s1 = s\<lparr>input_reading := False,
                 owner := callback_when_change (obj s) (owner s)\<rparr>
      in if \<not> end_listen (obj s1) then listen_input s1 else s1)"

text \<open>
  \<^verbatim>\<open>#listen_error\<close>. The completion handler calls \<^verbatim>\<open>read_line_finish\<close>; when that
  throws it hands the exception to the error callback and resolves with
  \<^verbatim>\<open>[null, 0]\<close>. The continuation reports a line that is not \<^verbatim>\<open>null\<close> and has a
  positive length, and tests the flag. The translation function \<^verbatim>\<open>_\<close> comes from
  \<^verbatim>\<open>lib/translator.js\<close> and is a parameter \<open>tr\<close> here. The template literal turns the
  line into text; a line is modelled by its bytes and the conversion keeps them.
\<close>

definition error_text :: "(string \<Rightarrow> string) \<Rightarrow> string \<Rightarrow> string" where
  "error_text tr line =
     tr ''the subprocess'' @ '' `'' @ EXECUTABLE_NAME @ ''` ''
     @ tr ''wrote on its error output'' @ tr '':'' @ '' '' @ line"

definition listen_error :: "'w sys \<Rightarrow> 'w sys" where
  "listen_error s = s\<lparr>error_reading := True\<rparr>"

definition listen_error_resume ::
  "(string \<Rightarrow> string) \<Rightarrow> read_result \<Rightarrow> 'w sys \<Rightarrow> 'w sys" where
  "listen_error_resume tr r s =
     (let s0 = s\<lparr>error_reading := False\<rparr>;
          (s1, line, len) =
            (case read_line_finish r of
               Inr (line, len) \<Rightarrow> (s0, line, len)
             | Inl error \<Rightarrow>
                 (s0\<lparr>owner := callback_for_errors (obj s0) (Failure error) (owner s0)\<rparr>,
                  None, 0));
          s2 = (case line of
                  Some l \<Rightarrow>
                    if len > 0
                    then s1\<lparr>owner := callback_for_errors (obj s1)
                                        (Message (error_text tr l)) (owner s1)\<rparr>
                    else s1
                | None \<Rightarrow> s1)
      in if \<not> end_listen (obj s2) then listen_error s2 else s2)"

text \<open>
  The main loop delivers a completion only for a read that is outstanding; with none,
  there is nothing to deliver.
\<close>

definition stdout_ready :: "read_result \<Rightarrow> 'w sys \<Rightarrow> 'w sys" where
  "stdout_ready r s = (if input_reading s then listen_input_resume r s else s)"

definition stderr_ready :: "(string \<Rightarrow> string) \<Rightarrow> read_result \<Rightarrow> 'w sys \<Rightarrow> 'w sys" where
  "stderr_ready tr r s = (if error_reading s then listen_error_resume tr r s else s)"

subsection \<open>Commands\<close>

text \<open>
  \<^verbatim>\<open>this.#output.write(buffer, null)\<close>: a blocking write of a few bytes on a pipe,
  \<open>output_write\<close> here. It delivers the buffer or throws.
\<close>

fun output_write :: "string \<Rightarrow> write_outcome \<Rightarrow> 'w sys \<Rightarrow> exn + 'w sys" where
  "output_write buffer Written s = Inr (s\<lparr>child_stdin := child_stdin s @ [buffer]\<rparr>)"
| "output_write buffer (WriteFailed m) s = Inl (GLibError m)"

text \<open>
  \<^verbatim>\<open>this.#subprocess.wait(null)\<close> blocks until the child has exited. On a child that has
  exited already it returns at once; otherwise it returns when the child exits, and
  never if the child does not (\<open>exits\<close> says which).
\<close>

definition wait :: "bool \<Rightarrow> 'w sys \<Rightarrow> 'w sys option" where
  "wait exits s =
     (if reaped s then Some s
      else if exits then Some (s\<lparr>reaped := True\<rparr>)
      else None)"

definition enable :: "write_outcome \<Rightarrow> 'w sys \<Rightarrow> status \<times> 'w sys" where
  "enable wo s =
     (case output_write (''enable'' @ newline) wo s of
        Inl e \<Rightarrow> (Thrown e, s)
      | Inr s' \<Rightarrow> (Returned, s'))"

definition disable :: "write_outcome \<Rightarrow> 'w sys \<Rightarrow> status \<times> 'w sys" where
  "disable wo s =
     (case output_write (''disable'' @ newline) wo s of
        Inl e \<Rightarrow> (Thrown e, s)
      | Inr s' \<Rightarrow> (Returned, s'))"

definition finalize :: "write_outcome \<Rightarrow> bool \<Rightarrow> 'w sys \<Rightarrow> status \<times> 'w sys" where
  "finalize wo exits s =
     (let s1 = s\<lparr>obj := (obj s)\<lparr>callback_when_change := (\<lambda>w. w)\<rparr>\<rparr>;
          s2 = s1\<lparr>obj := (obj s1)\<lparr>end_listen := True\<rparr>\<rparr>
      in case output_write (''exit'' @ newline) wo s2 of
           Inl e \<Rightarrow> (Thrown e, s2)
         | Inr s3 \<Rightarrow>
             (case wait exits s3 of
                None \<Rightarrow> (Blocked, s3)
              | Some s4 \<Rightarrow> (Returned, s4)))"

subsection \<open>The constructor\<close>

definition missing_dependencies_text :: string where
  "missing_dependencies_text =
     ''Missing dependencies `make` and `gcc`. Install them, in e.g. on Debian-based system with `sudo apt install build-essential`, then reload the applet (in e.g. in restarting Cinnamon).''"

definition compilation_failed_text :: "(string \<Rightarrow> string) \<Rightarrow> string" where
  "compilation_failed_text tr =
     tr ''Compilation of'' @ '' `'' @ EXECUTABLE_NAME @ ''` '' @ tr ''failed''
     @ ''.'' @ newline @ newline"

text \<open>
  The \<^verbatim>\<open>try\<close> block around the build: \<^verbatim>\<open>communicate_utf8\<close> may throw, and a build that
  did not succeed throws an \<^verbatim>\<open>Error\<close> holding the captured error text.
\<close>

definition compile_step :: "env \<Rightarrow> exn + unit" where
  "compile_step e =
     (case make_communicate e of
        Inl error \<Rightarrow> Inl error
      | Inr stderr \<Rightarrow> if \<not> make_successful e then Inl (Error stderr) else Inr ())"

text \<open>
  A construction either yields the running system, or fails with an exception; the
  failure also records the argument vectors of the subprocesses started before it.
\<close>

datatype 'w construction = Constructed (the_sys: "'w sys") | Failed exn "string list list"

definition constructor ::
  "(string \<Rightarrow> string) \<Rightarrow> env \<Rightarrow> string \<Rightarrow> ('w \<Rightarrow> 'w) \<Rightarrow> (err_arg \<Rightarrow> 'w \<Rightarrow> 'w) \<Rightarrow> 'w
     \<Rightarrow> 'w construction" where
  "constructor tr e path cb_change cb_errors w =
     (if \<not> (truthy (find_program_in_path e ''make'')
             \<and> truthy (find_program_in_path e ''gcc''))
      then Failed (Error (tr missing_dependencies_text)) []
      else case make_init e of
        Some error \<Rightarrow> Failed error []
      | None \<Rightarrow>
          (let started = [[''make'', ''-C'', path]] in
           case compile_step e of
             Inl error \<Rightarrow>
               Failed (Error (compilation_failed_text tr @ message error)) started
           | Inr _ \<Rightarrow>
               (let executable_path = path @ ''/'' @ EXECUTABLE_NAME in
                case child_init e of
                  Some error \<Rightarrow> Failed error started
                | None \<Rightarrow>
                    Constructed
                      (listen_error (listen_input
                        \<lparr>obj = \<lparr>callback_when_change = cb_change,
                                callback_for_errors = cb_errors,
                                subprocess = [executable_path],
                                input = Stdout_pipe,
                                input_error = Stderr_pipe,
                                output_stream = Stdin_pipe,
                                end_listen = False\<rparr>,
                         owner = w,
                         input_reading = False,
                         error_reading = False,
                         child_stdin = [],
                         spawned = started @ [[executable_path]],
                         reaped = False\<rparr>)))))"

subsection \<open>Runs\<close>

datatype event =
    Stdout_ready read_result
  | Stderr_ready read_result
  | Enable write_outcome
  | Disable write_outcome
  | Finalize write_outcome bool

fun step :: "(string \<Rightarrow> string) \<Rightarrow> event \<Rightarrow> 'w sys \<Rightarrow> status \<times> 'w sys" where
  "step tr (Stdout_ready r) s = (Returned, stdout_ready r s)"
| "step tr (Stderr_ready r) s = (Returned, stderr_ready tr r s)"
| "step tr (Enable wo) s = enable wo s"
| "step tr (Disable wo) s = disable wo s"
| "step tr (Finalize wo exits) s = finalize wo exits s"

text \<open>
  A run is a sequence of steps. A call that blocks forever ends it: the one thread is
  stuck in the call. A call that throws leaves the object as it is at the throw, and
  the run goes on.
\<close>

fun run :: "(string \<Rightarrow> string) \<Rightarrow> event list \<Rightarrow> 'w sys \<Rightarrow> 'w sys" where
  "run tr [] s = s"
| "run tr (e # es) s =
     (case step tr e s of
        (Blocked, s') \<Rightarrow> s'
      | (_, s') \<Rightarrow> run tr es s')"

subsection \<open>An owner that records the calls it receives\<close>

text \<open>
  To count calls, the owner's state is the list of the calls made to its two callbacks,
  and each callback appends its own call to it.
\<close>

datatype call = On_change | On_error err_arg

definition on_change :: "call list \<Rightarrow> call list" where
  "on_change log = log @ [On_change]"

definition on_error :: "err_arg \<Rightarrow> call list \<Rightarrow> call list" where
  "on_error a log = log @ [On_error a]"

fun change_calls :: "call list \<Rightarrow> nat" where
  "change_calls [] = 0"
| "change_calls (On_change # cs) = Suc (change_calls cs)"
| "change_calls (On_error a # cs) = change_calls cs"

fun error_calls :: "call list \<Rightarrow> err_arg list" where
  "error_calls [] = []"
| "error_calls (On_change # cs) = error_calls cs"
| "error_calls (On_error a # cs) = a # error_calls cs"

text \<open>
  What a run delivers: the lines completed on each stream, whether the run holds no call
  of \<^verbatim>\<open>finalize\<close>, and whether every completion on a stream is a line.
\<close>

fun stdout_lines :: "event list \<Rightarrow> string list" where
  "stdout_lines [] = []"
| "stdout_lines (Stdout_ready (Line l) # es) = l # stdout_lines es"
| "stdout_lines (e # es) = stdout_lines es"

fun stderr_lines :: "event list \<Rightarrow> string list" where
  "stderr_lines [] = []"
| "stderr_lines (Stderr_ready (Line l) # es) = l # stderr_lines es"
| "stderr_lines (e # es) = stderr_lines es"

fun before_finalize :: "event list \<Rightarrow> bool" where
  "before_finalize [] = True"
| "before_finalize (Finalize wo exits # es) = False"
| "before_finalize (e # es) = before_finalize es"

fun stdout_delivers_lines :: "event list \<Rightarrow> bool" where
  "stdout_delivers_lines [] = True"
| "stdout_delivers_lines (Stdout_ready Eof # es) = False"
| "stdout_delivers_lines (Stdout_ready (ReadFailed m) # es) = False"
| "stdout_delivers_lines (e # es) = stdout_delivers_lines es"

fun stderr_delivers_lines :: "event list \<Rightarrow> bool" where
  "stderr_delivers_lines [] = True"
| "stderr_delivers_lines (Stderr_ready Eof # es) = False"
| "stderr_delivers_lines (Stderr_ready (ReadFailed m) # es) = False"
| "stderr_delivers_lines (e # es) = stderr_delivers_lines es"

text \<open>
  The state in which the constructor leaves the object, and in which it stays until
  \<^verbatim>\<open>finalize\<close>: both loops wait for a read, the flag is clear, and the callbacks are
  the owner's.
\<close>

definition listening :: "call list sys \<Rightarrow> bool" where
  "listening s =
     (input_reading s \<and> error_reading s \<and> \<not> end_listen (obj s)
      \<and> callback_when_change (obj s) = on_change
      \<and> callback_for_errors (obj s) = on_error)"

text \<open>
  The state in which \<^verbatim>\<open>finalize\<close> leaves the callbacks: the change callback is the
  function that does nothing, the error callback is still the owner's.
\<close>

definition silenced :: "call list sys \<Rightarrow> bool" where
  "silenced s =
     (callback_when_change (obj s) = (\<lambda>w. w) \<and> callback_for_errors (obj s) = on_error)"

subsection \<open>Concrete surroundings\<close>

text \<open>
  A machine with both tools, on which the build succeeds and the child starts; the same
  with a failing build, and with \<^verbatim>\<open>gcc\<close> missing; the object built on the first; the
  object after a first \<^verbatim>\<open>finalize\<close>; a short run; what the reads of the output
  complete with when the child writes one line and exits with no \<^verbatim>\<open>finalize\<close> called;
  and what may still arrive after a \<^verbatim>\<open>finalize\<close>: lines the child had written, then
  the end of both streams.
\<close>

definition tools_present :: "string \<Rightarrow> string option" where
  "tools_present name = Some (''/usr/bin/'' @ name)"

definition build_ok :: env where
  "build_ok = \<lparr>find_program_in_path = tools_present, make_init = None,
     make_communicate = Inr [], make_successful = True, child_init = None\<rparr>"

definition running :: "call list sys" where
  "running = the_sys (constructor id build_ok ''/opt/applet'' on_change on_error [])"

definition torn_down :: "call list sys" where
  "torn_down = snd (finalize Written True running)"

definition build_broken :: env where
  "build_broken = build_ok\<lparr>make_communicate := Inr ''syntax error'', make_successful := False\<rparr>"

definition gcc_missing :: "string \<Rightarrow> string option" where
  "gcc_missing name = (if name = ''gcc'' then None else tools_present name)"

definition demo_events :: "event list" where
  "demo_events =
     [Stdout_ready (Line ''changed''), Stderr_ready (Line ''warn: clock skew''),
      Enable Written, Stderr_ready (Line []), Stdout_ready (Line []),
      Disable (WriteFailed ''Broken pipe''), Stdout_ready (Line ''changed'')]"

definition early_exit_events :: "event list" where
  "early_exit_events =
     [Stdout_ready (Line ''changed''), Stdout_ready Eof, Stdout_ready Eof]"

definition buffered_events :: "event list" where
  "buffered_events =
     [Stdout_ready (Line ''changed''), Stdout_ready (Line ''changed''), Stdout_ready Eof,
      Stderr_ready Eof]"

section \<open>Properties\<close>

subsection \<open>Auxiliary facts\<close>

lemma change_calls_append [simp]: "change_calls (xs @ ys) = change_calls xs + change_calls ys"
  by (induction xs rule: change_calls.induct) auto

lemma error_calls_append [simp]: "error_calls (xs @ ys) = error_calls xs @ error_calls ys"
  by (induction xs rule: error_calls.induct) auto

lemma constructed_state:
  assumes "constructor tr e path cb ce w = Constructed s"
  shows "input_reading s" "error_reading s" "\<not> end_listen (obj s)"
    "callback_when_change (obj s) = cb" "callback_for_errors (obj s) = ce"
    "owner s = w" "child_stdin s = []" "\<not> reaped s"
  using assms
  by (auto simp: constructor_def listen_input_def listen_error_def Let_def
      split: if_splits option.splits sum.splits)

lemma constructed_listening:
  "constructor tr e path on_change on_error w = Constructed s \<Longrightarrow> listening s"
  by (simp add: listening_def constructed_state)

lemma stdout_ready_listening:
  assumes "listening s"
  shows "listening (stdout_ready r s)"
    and "owner (stdout_ready r s) = owner s @ [On_change]"
  using assms
  by (simp_all add: listening_def stdout_ready_def listen_input_resume_def
      listen_input_def on_change_def Let_def)

lemma stderr_ready_listening:
  assumes "listening s"
  shows "listening (stderr_ready tr r s)"
    and "owner (stderr_ready tr r s) = owner s @
          (case r of
             Line l \<Rightarrow> if l = [] then [] else [On_error (Message (error_text tr l))]
           | Eof \<Rightarrow> []
           | ReadFailed m \<Rightarrow> [On_error (Failure (GLibError m))])"
proof -
  from assms have a: "error_reading s" "\<not> end_listen (obj s)"
    "callback_for_errors (obj s) = on_error" "input_reading s"
    "callback_when_change (obj s) = on_change"
    by (simp_all add: listening_def)
  show "listening (stderr_ready tr r s)"
    using a by (cases r) (simp_all add: listening_def stderr_ready_def
        listen_error_resume_def listen_error_def Let_def)
  show "owner (stderr_ready tr r s) = owner s @
          (case r of
             Line l \<Rightarrow> if l = [] then [] else [On_error (Message (error_text tr l))]
           | Eof \<Rightarrow> []
           | ReadFailed m \<Rightarrow> [On_error (Failure (GLibError m))])"
    using a by (cases r) (simp_all add: stderr_ready_def
        listen_error_resume_def listen_error_def on_error_def Let_def)
qed

lemma command_listening:
  assumes "listening s"
  shows "listening (snd (enable wo s))" "owner (snd (enable wo s)) = owner s"
    "fst (enable wo s) \<noteq> Blocked"
    "listening (snd (disable wo s))" "owner (snd (disable wo s)) = owner s"
    "fst (disable wo s) \<noteq> Blocked"
  using assms
  by (cases wo; simp add: listening_def enable_def disable_def)+

lemma run_Cons:
  "fst (step tr e s) \<noteq> Blocked \<Longrightarrow> run tr (e # es) s = run tr es (snd (step tr e s))"
  by (cases "step tr e s"; cases "fst (step tr e s)") simp_all

lemma step_listening:
  assumes "listening s" "before_finalize [e]"
  shows "listening (snd (step tr e s))" "fst (step tr e s) \<noteq> Blocked"
  using assms
  by (cases e; simp add: stdout_ready_listening stderr_ready_listening command_listening)+

lemma step_changes:
  assumes "listening s" "before_finalize [e]"
  shows "change_calls (owner (snd (step tr e s))) =
           change_calls (owner s) + (case e of Stdout_ready r \<Rightarrow> 1 | _ \<Rightarrow> 0)"
proof (cases e)
  case (Stderr_ready r)
  with assms show ?thesis
    by (cases r) (simp_all add: stderr_ready_listening)
qed (use assms in \<open>simp_all add: stdout_ready_listening command_listening\<close>)

lemma step_errors:
  assumes "listening s" "before_finalize [e]" "stderr_delivers_lines [e]"
  shows "error_calls (owner (snd (step tr e s))) =
           error_calls (owner s) @
           map (\<lambda>l. Message (error_text tr l)) (filter (\<lambda>l. l \<noteq> []) (stderr_lines [e]))"
proof (cases e)
  case (Stderr_ready r)
  with assms show ?thesis
    by (cases r) (simp_all add: stderr_ready_listening)
qed (use assms in \<open>simp_all add: stdout_ready_listening command_listening\<close>)

lemma before_finalize_Cons:
  "before_finalize (e # es) = (before_finalize [e] \<and> before_finalize es)"
  by (cases e) simp_all

lemma stdout_delivers_lines_Cons:
  "stdout_delivers_lines (e # es) = (stdout_delivers_lines [e] \<and> stdout_delivers_lines es)"
  by (induction "e # es" rule: stdout_delivers_lines.induct) auto

lemma stderr_delivers_lines_Cons:
  "stderr_delivers_lines (e # es) = (stderr_delivers_lines [e] \<and> stderr_delivers_lines es)"
  by (induction "e # es" rule: stderr_delivers_lines.induct) auto

lemma stdout_lines_Cons:
  "stdout_delivers_lines [e] \<Longrightarrow>
   length (stdout_lines (e # es)) = (case e of Stdout_ready r \<Rightarrow> 1 | _ \<Rightarrow> 0) + length (stdout_lines es)"
  by (induction "e # es" rule: stdout_lines.induct) auto

lemma stderr_lines_Cons:
  "stderr_lines (e # es) = stderr_lines [e] @ stderr_lines es"
  by (induction "e # es" rule: stderr_lines.induct) auto

lemma run_listening:
  assumes "listening s" "before_finalize es"
  shows "listening (run tr es s)"
  using assms
proof (induction es arbitrary: s)
  case (Cons e es)
  from Cons.prems have e: "before_finalize [e]" and es: "before_finalize es"
    using before_finalize_Cons [of e es] by simp_all
  from step_listening [OF Cons.prems(1) e, of tr] Cons.IH [OF _ es]
  show ?case by (simp add: run_Cons del: run.simps)
qed simp

lemma run_changes:
  assumes "listening s" "before_finalize es" "stdout_delivers_lines es"
  shows "change_calls (owner (run tr es s)) = change_calls (owner s) + length (stdout_lines es)"
  using assms
proof (induction es arbitrary: s)
  case (Cons e es)
  from Cons.prems have e: "before_finalize [e]" "stdout_delivers_lines [e]"
    and es: "before_finalize es" "stdout_delivers_lines es"
    using before_finalize_Cons [of e es] stdout_delivers_lines_Cons [of e es] by simp_all
  have "run tr (e # es) s = run tr es (snd (step tr e s))"
    using step_listening(2) [OF Cons.prems(1) e(1)] by (rule run_Cons)
  moreover have "change_calls (owner (run tr es (snd (step tr e s)))) =
      change_calls (owner (snd (step tr e s))) + length (stdout_lines es)"
    using step_listening(1) [OF Cons.prems(1) e(1)] es by (rule Cons.IH)
  ultimately show ?case
    using step_changes [OF Cons.prems(1) e(1), of tr] stdout_lines_Cons [OF e(2), of es]
    by simp
qed simp

lemma run_errors:
  assumes "listening s" "before_finalize es" "stderr_delivers_lines es"
  shows "error_calls (owner (run tr es s)) =
           error_calls (owner s) @
           map (\<lambda>l. Message (error_text tr l)) (filter (\<lambda>l. l \<noteq> []) (stderr_lines es))"
  using assms
proof (induction es arbitrary: s)
  case (Cons e es)
  from Cons.prems have e: "before_finalize [e]" "stderr_delivers_lines [e]"
    and es: "before_finalize es" "stderr_delivers_lines es"
    using before_finalize_Cons [of e es] stderr_delivers_lines_Cons [of e es] by simp_all
  have "run tr (e # es) s = run tr es (snd (step tr e s))"
    using step_listening(2) [OF Cons.prems(1) e(1)] by (rule run_Cons)
  moreover have "error_calls (owner (run tr es (snd (step tr e s)))) =
      error_calls (owner (snd (step tr e s))) @
      map (\<lambda>l. Message (error_text tr l)) (filter (\<lambda>l. l \<noteq> []) (stderr_lines es))"
    using step_listening(1) [OF Cons.prems(1) e(1)] es by (rule Cons.IH)
  ultimately show ?case
    using step_errors [OF Cons.prems(1) e, of tr] stderr_lines_Cons [of e es]
    by simp
qed simp

lemma before_finalize_take: "before_finalize es \<Longrightarrow> before_finalize (take n es)"
  by (induction es arbitrary: n rule: before_finalize.induct) (simp_all add: take_Cons')

lemma stdout_delivers_lines_take:
  "stdout_delivers_lines es \<Longrightarrow> stdout_delivers_lines (take n es)"
  by (induction es arbitrary: n rule: stdout_delivers_lines.induct) (simp_all add: take_Cons')

lemma stderr_delivers_lines_take:
  "stderr_delivers_lines es \<Longrightarrow> stderr_delivers_lines (take n es)"
  by (induction es arbitrary: n rule: stderr_delivers_lines.induct) (simp_all add: take_Cons')

lemma error_text_suffix: "suffix l (error_text tr l)"
  unfolding error_text_def suffix_def by (metis append.assoc)

lemma running_constructed:
  "constructor id build_ok ''/opt/applet'' on_change on_error [] = Constructed running"
  by (simp add: running_def constructor_def build_ok_def tools_present_def compile_step_def
      Let_def)

lemma running_eq:
  "running =
     \<lparr>obj = \<lparr>callback_when_change = on_change, callback_for_errors = on_error,
             subprocess = [''/opt/applet/'' @ EXECUTABLE_NAME],
             input = Stdout_pipe, input_error = Stderr_pipe, output_stream = Stdin_pipe,
             end_listen = False\<rparr>,
      owner = [], input_reading = True, error_reading = True, child_stdin = [],
      spawned = [[''make'', ''-C'', ''/opt/applet''], [''/opt/applet/'' @ EXECUTABLE_NAME]],
      reaped = False\<rparr>"
  by (simp add: running_def constructor_def build_ok_def tools_present_def compile_step_def
      listen_input_def listen_error_def Let_def)

lemma run_step:
  "run tr (e # es) s =
     (if fst (step tr e s) = Blocked then snd (step tr e s)
      else run tr es (snd (step tr e s)))"
  by (cases "step tr e s"; cases "fst (step tr e s)") simp_all

lemma finalize_obj:
  "obj (snd (finalize wo exits s)) =
     (obj s)\<lparr>callback_when_change := (\<lambda>w. w), end_listen := True\<rparr>"
  by (cases wo) (simp_all add: finalize_def wait_def Let_def)

lemma finalize_rest:
  "owner (snd (finalize wo exits s)) = owner s"
  "input_reading (snd (finalize wo exits s)) = input_reading s"
  "error_reading (snd (finalize wo exits s)) = error_reading s"
  "spawned (snd (finalize wo exits s)) = spawned s"
  by (cases wo; simp add: finalize_def wait_def Let_def)+

lemma command_obj:
  "obj (snd (enable wo s)) = obj s" "owner (snd (enable wo s)) = owner s"
  "input_reading (snd (enable wo s)) = input_reading s"
  "obj (snd (disable wo s)) = obj s" "owner (snd (disable wo s)) = owner s"
  "input_reading (snd (disable wo s)) = input_reading s"
  by (cases wo; simp add: enable_def disable_def)+

lemma stdout_ready_obj: "obj (stdout_ready r s) = obj s"
  by (simp add: stdout_ready_def listen_input_resume_def listen_input_def Let_def)

lemma stderr_ready_obj: "obj (stderr_ready tr r s) = obj s"
  by (cases r) (simp_all add: stderr_ready_def listen_error_resume_def listen_error_def Let_def)

lemma stderr_ready_input_reading: "input_reading (stderr_ready tr r s) = input_reading s"
  by (cases r) (simp_all add: stderr_ready_def listen_error_resume_def listen_error_def Let_def)

lemma step_callback_for_errors:
  "callback_for_errors (obj (snd (step tr e s))) = callback_for_errors (obj s)"
  by (cases e) (simp_all add: stdout_ready_obj stderr_ready_obj command_obj finalize_obj)

lemma run_callback_for_errors:
  "callback_for_errors (obj (run tr es s)) = callback_for_errors (obj s)"
  by (induction es arbitrary: s) (simp_all add: run_step step_callback_for_errors del: run.simps(2))

lemma stdout_ready_silenced:
  "silenced s \<Longrightarrow> owner (stdout_ready r s) = owner s"
  by (simp add: silenced_def stdout_ready_def listen_input_resume_def listen_input_def Let_def)

lemma stderr_ready_silenced:
  "silenced s \<Longrightarrow> change_calls (owner (stderr_ready tr r s)) = change_calls (owner s)"
  by (cases r) (simp_all add: silenced_def stderr_ready_def listen_error_resume_def
      listen_error_def on_error_def Let_def)

lemma step_silenced:
  assumes "silenced s"
  shows "silenced (snd (step tr e s))"
    and "change_calls (owner (snd (step tr e s))) = change_calls (owner s)"
proof -
  show "silenced (snd (step tr e s))"
    using assms
    by (cases e) (simp_all add: silenced_def stdout_ready_obj stderr_ready_obj command_obj
        finalize_obj)
  show "change_calls (owner (snd (step tr e s))) = change_calls (owner s)"
    using assms
    by (cases e) (simp_all add: stdout_ready_silenced stderr_ready_silenced command_obj
        finalize_rest)
qed

lemma run_silenced:
  "silenced s \<Longrightarrow> change_calls (owner (run tr es s)) = change_calls (owner s)"
  by (induction es arbitrary: s) (simp_all add: run_step step_silenced del: run.simps(2))

lemma step_not_reading:
  "\<not> input_reading s \<Longrightarrow> \<not> input_reading (snd (step tr e s))"
  by (cases e) (simp_all add: stdout_ready_def stderr_ready_input_reading command_obj
      finalize_rest)

lemma run_not_reading:
  "\<not> input_reading s \<Longrightarrow> \<not> input_reading (run tr es s)"
  by (induction es arbitrary: s) (simp_all add: run_step step_not_reading del: run.simps(2))

subsection \<open>Construction\<close>

text \<open>
  Claim C8. If \<^verbatim>\<open>make\<close> or \<^verbatim>\<open>gcc\<close> is not found on the command search path, the
  constructor throws an \<^verbatim>\<open>Error\<close> whose message is the (translated) text naming the two
  tools and the command that installs them, and it has started no subprocess: neither
  the build nor the child.
\<close>

theorem missing_tools_fail_before_spawn:
  assumes "find_program_in_path e ''make'' = None \<or> find_program_in_path e ''gcc'' = None"
  shows "constructor tr e path cb ce w = Failed (Error (tr missing_dependencies_text)) []"
  using assms by (auto simp: constructor_def)

theorem missing_tools_fail_before_spawn_witness:
  "find_program_in_path (build_ok\<lparr>find_program_in_path := gcc_missing\<rparr>) ''gcc'' = None
   \<and> constructor id (build_ok\<lparr>find_program_in_path := gcc_missing\<rparr>) ''/opt/applet''
        on_change on_error [] = Failed (Error missing_dependencies_text) []"
proof -
  have h: "find_program_in_path (build_ok\<lparr>find_program_in_path := gcc_missing\<rparr>) ''gcc'' = None"
    by (simp add: gcc_missing_def)
  then have "find_program_in_path (build_ok\<lparr>find_program_in_path := gcc_missing\<rparr>) ''make'' = None
      \<or> find_program_in_path (build_ok\<lparr>find_program_in_path := gcc_missing\<rparr>) ''gcc'' = None"
    by simp
  from h missing_tools_fail_before_spawn [OF this, of id "''/opt/applet''" on_change on_error "[]"]
  show ?thesis by simp
qed

text \<open>
  Claim C9. If both tools are found and the build starts, but does not exit
  successfully, the constructor throws an \<^verbatim>\<open>Error\<close> whose message is the
  compilation-failed heading followed by the text the build wrote on its error stream,
  so the message contains that text; the only subprocess started is \<^verbatim>\<open>make\<close>, not the
  child.
\<close>

theorem build_failure_reports_stderr:
  assumes "truthy (find_program_in_path e ''make'')"
    and "truthy (find_program_in_path e ''gcc'')"
    and "make_init e = None"
    and "make_communicate e = Inr stderr"
    and "\<not> make_successful e"
  shows "constructor tr e path cb ce w =
           Failed (Error (compilation_failed_text tr @ stderr)) [[''make'', ''-C'', path]]
       \<and> sublist stderr (compilation_failed_text tr @ stderr)"
  using assms by (simp add: constructor_def compile_step_def)

theorem build_failure_reports_stderr_witness:
  "truthy (find_program_in_path build_broken ''make'')
   \<and> truthy (find_program_in_path build_broken ''gcc'')
   \<and> make_init build_broken = None
   \<and> make_communicate build_broken = Inr ''syntax error''
   \<and> \<not> make_successful build_broken
   \<and> constructor id build_broken ''/opt/applet'' on_change on_error [] =
       Failed (Error (compilation_failed_text id @ ''syntax error''))
         [[''make'', ''-C'', ''/opt/applet'']]
   \<and> sublist ''syntax error'' (compilation_failed_text id @ ''syntax error'')"
proof -
  have h: "truthy (find_program_in_path build_broken ''make'')"
    "truthy (find_program_in_path build_broken ''gcc'')"
    "make_init build_broken = None"
    "make_communicate build_broken = Inr ''syntax error''"
    "\<not> make_successful build_broken"
    by (simp_all add: build_broken_def build_ok_def tools_present_def)
  from h build_failure_reports_stderr [OF h, of id "''/opt/applet''" on_change on_error "[]"]
  show ?thesis by simp
qed

subsection \<open>The read loops before finalize\<close>

text \<open>
  As long as every completed read of the child's output delivers a line, the count is
  right: in a run without \<^verbatim>\<open>finalize\<close>, the owner's change callback has been called
  once per line delivered, after the whole run and after every prefix of it.
\<close>

lemma change_calls_while_lines:
  assumes "constructor tr e path on_change on_error [] = Constructed s0"
    and "before_finalize es"
    and "stdout_delivers_lines es"
  shows "change_calls (owner (run tr es s0)) = length (stdout_lines es)
       \<and> change_calls (owner (run tr (take n es) s0)) = length (stdout_lines (take n es))"
proof -
  have l: "listening s0" and w: "owner s0 = []"
    using assms(1) by (simp_all add: constructed_listening constructed_state)
  have "change_calls (owner (run tr es s0)) = length (stdout_lines es)"
    using run_changes [OF l assms(2,3), where tr = tr] w by simp
  moreover have "change_calls (owner (run tr (take n es) s0)) = length (stdout_lines (take n es))"
    using run_changes [OF l before_finalize_take [OF assms(2), of n]
        stdout_delivers_lines_take [OF assms(3), of n], where tr = tr] w by simp
  ultimately show ?thesis by simp
qed


text \<open>
  Claim C1 says that for the \<open>N\<close> lines the child writes on its output before
  \<^verbatim>\<open>finalize\<close>, the owner's change callback is called exactly \<open>N\<close> times, once per line.
  The code does not do that when the child exits with no \<^verbatim>\<open>finalize\<close> called. The loop
  never looks at what a read delivered, so it calls the callback at every completion:
  on the object just built, with one line written and then the stream closed, a run
  without \<^verbatim>\<open>finalize\<close> delivers one line and the callback is called three times, once
  for the line and once for each completion at the end of the stream.
\<close>

theorem change_callback_without_line:
  "constructor id build_ok ''/opt/applet'' on_change on_error [] = Constructed running
   \<and> before_finalize early_exit_events
   \<and> stdout_lines early_exit_events = [''changed'']
   \<and> change_calls (owner (run id early_exit_events running)) = 3
   \<and> owner (run id early_exit_events running) = [On_change, On_change, On_change]
   \<and> input_reading (run id early_exit_events running)"
  by (simp add: running_constructed early_exit_events_def running_eq stdout_ready_def
      listen_input_resume_def listen_input_def on_change_def Let_def)

text \<open>
  Claim C5. On an object built by the constructor, in any run without \<^verbatim>\<open>finalize\<close> in
  which every completed read of the child's error stream delivers a line, the calls of
  the owner's error callback are exactly one per non-empty line, in order, each with
  the message built from that line; an empty line gives no call. The message ends with
  the line, so it contains the line verbatim.
\<close>

theorem error_callback_once_per_nonempty_line:
  assumes "constructor tr e path on_change on_error [] = Constructed s0"
    and "before_finalize es"
    and "stderr_delivers_lines es"
  shows "error_calls (owner (run tr es s0)) =
           map (\<lambda>l. Message (error_text tr l)) (filter (\<lambda>l. l \<noteq> []) (stderr_lines es))
       \<and> error_calls (owner (run tr (take n es) s0)) =
           map (\<lambda>l. Message (error_text tr l)) (filter (\<lambda>l. l \<noteq> []) (stderr_lines (take n es)))
       \<and> suffix l (error_text tr l)"
proof -
  have s: "listening s0" and w: "owner s0 = []"
    using assms(1) by (simp_all add: constructed_listening constructed_state)
  have "error_calls (owner (run tr es s0)) =
      map (\<lambda>l. Message (error_text tr l)) (filter (\<lambda>l. l \<noteq> []) (stderr_lines es))"
    using run_errors [OF s assms(2,3), where tr = tr] w by simp
  moreover have "error_calls (owner (run tr (take n es) s0)) =
      map (\<lambda>l. Message (error_text tr l)) (filter (\<lambda>l. l \<noteq> []) (stderr_lines (take n es)))"
    using run_errors [OF s before_finalize_take [OF assms(2), of n]
        stderr_delivers_lines_take [OF assms(3), of n], where tr = tr] w by simp
  ultimately show ?thesis by (simp add: error_text_suffix)
qed

theorem error_callback_once_per_nonempty_line_witness:
  "before_finalize demo_events \<and> stderr_delivers_lines demo_events
   \<and> error_calls (owner (run id demo_events running)) =
       [Message (error_text id ''warn: clock skew'')]
   \<and> suffix ''warn: clock skew'' (error_text id ''warn: clock skew'')"
proof -
  have b: "before_finalize demo_events" and d: "stderr_delivers_lines demo_events"
    by (simp_all add: demo_events_def)
  show ?thesis
    using b d error_callback_once_per_nonempty_line [OF running_constructed b d,
        of 0 "''warn: clock skew''"]
    by (simp add: demo_events_def)
qed

subsection \<open>The commands\<close>

text \<open>
  Claim C2 does not hold as stated. On the object just built, an \<^verbatim>\<open>enable\<close> or a
  \<^verbatim>\<open>disable\<close> whose write fails with a broken pipe throws that failure to its caller,
  and the owner's error callback has not been called: the record of calls is empty.
\<close>

theorem enable_failure_counterexample:
  "fst (enable (WriteFailed ''Broken pipe'') running) = Thrown (GLibError ''Broken pipe'')
   \<and> owner (snd (enable (WriteFailed ''Broken pipe'') running)) = []
   \<and> fst (disable (WriteFailed ''Broken pipe'') running) = Thrown (GLibError ''Broken pipe'')
   \<and> owner (snd (disable (WriteFailed ''Broken pipe'') running)) = []"
  by (simp add: enable_def disable_def running_eq)

text \<open>
  Claim C2, amended. \<^verbatim>\<open>enable\<close> and \<^verbatim>\<open>disable\<close> hold no handler around the write. A
  failure of the write is thrown to the caller as it is, and nothing else changes: no
  callback is called. A write that succeeds delivers the one command, terminated by a
  newline, and the call returns.
\<close>

theorem write_failure_is_thrown:
  "enable (WriteFailed m) s = (Thrown (GLibError m), s)
   \<and> disable (WriteFailed m) s = (Thrown (GLibError m), s)
   \<and> enable Written s = (Returned, s\<lparr>child_stdin := child_stdin s @ [''enable'' @ newline]\<rparr>)
   \<and> disable Written s = (Returned, s\<lparr>child_stdin := child_stdin s @ [''disable'' @ newline]\<rparr>)"
  by (simp add: enable_def disable_def)

theorem write_failure_is_thrown_witness:
  "enable (WriteFailed ''Broken pipe'') running = (Thrown (GLibError ''Broken pipe''), running)
   \<and> child_stdin (snd (disable Written (snd (enable Written running)))) =
       [''enable'' @ newline, ''disable'' @ newline]"
  using write_failure_is_thrown [of "''Broken pipe''" running]
    write_failure_is_thrown [of "''Broken pipe''" "snd (enable Written running)"]
  by (simp add: running_eq)

subsection \<open>Finalize\<close>

text \<open>
  Claim C10. \<^verbatim>\<open>finalize\<close> leaves the object with the change callback replaced by the
  function that does nothing and the flag set, and every other field as it was: the
  error callback is the one given to the constructor. Whichever way \<^verbatim>\<open>finalize\<close>
  ends (it returns, throws or blocks), a read of the error stream that was outstanding
  and completes afterwards with a non-empty line still calls the owner's error callback.
\<close>

theorem finalize_frame:
  "obj (snd (finalize wo exits s)) =
     (obj s)\<lparr>callback_when_change := (\<lambda>w. w), end_listen := True\<rparr>
   \<and> callback_for_errors (obj (snd (finalize wo exits s))) = callback_for_errors (obj s)
   \<and> error_reading (snd (finalize wo exits s)) = error_reading s
   \<and> owner (stderr_ready tr (Line l) (snd (finalize wo exits s))) =
       (if error_reading s \<and> l \<noteq> []
        then callback_for_errors (obj s) (Message (error_text tr l)) (owner s)
        else owner s)"
  by (simp add: finalize_obj finalize_rest stderr_ready_def listen_error_resume_def
      listen_error_def Let_def)

theorem finalize_frame_witness:
  "callback_for_errors (obj torn_down) = callback_for_errors (obj running)
   \<and> owner (stderr_ready id (Line ''late'') torn_down) = [On_error (Message (error_text id ''late''))]"
  using finalize_frame [of Written True running id "''late''"]
  by (simp add: torn_down_def running_eq on_error_def)

text \<open>
  Claim C3. On an object built by the constructor, after any run and a call of
  \<^verbatim>\<open>finalize\<close>, whatever happens next (lines the child had buffered on its output, the
  end of the streams, further commands), the number of calls of the owner's change
  callback stays what it was when \<^verbatim>\<open>finalize\<close> was called.
\<close>

theorem no_change_callback_after_finalize:
  assumes "constructor tr e path on_change on_error [] = Constructed s0"
    and "finalize wo exits (run tr before s0) = (st, s1)"
  shows "change_calls (owner (run tr after s1)) = change_calls (owner (run tr before s0))"
proof -
  have s1: "s1 = snd (finalize wo exits (run tr before s0))"
    using assms(2) by simp
  have "callback_for_errors (obj (run tr before s0)) = on_error"
    using assms(1) by (simp add: run_callback_for_errors constructed_state)
  then have "silenced s1"
    by (simp add: s1 silenced_def finalize_obj)
  then have "change_calls (owner (run tr after s1)) = change_calls (owner s1)"
    by (rule run_silenced)
  then show ?thesis by (simp add: s1 finalize_rest)
qed

theorem no_change_callback_after_finalize_witness:
  "finalize Written True (run id demo_events running) =
     (Returned, snd (finalize Written True (run id demo_events running)))
   \<and> change_calls (owner (run id buffered_events
         (snd (finalize Written True (run id demo_events running))))) = 3"
proof -
  have h: "finalize Written True (run id demo_events running) =
      (Returned, snd (finalize Written True (run id demo_events running)))"
    by (simp add: finalize_def wait_def Let_def prod_eq_iff)
  have c: "change_calls (owner (run id demo_events running)) = 3"
    by (simp add: demo_events_def running_eq stdout_ready_def stderr_ready_def
        listen_input_resume_def listen_error_resume_def listen_input_def listen_error_def
        enable_def disable_def on_change_def on_error_def Let_def)
  from h c no_change_callback_after_finalize [OF running_constructed h, of buffered_events]
  show ?thesis by simp
qed

text \<open>
  Claim C4 does not hold as stated. A first \<^verbatim>\<open>finalize\<close> on the object just built
  returns, the child having exited. The child's end of the input pipe is closed then, so
  the write of a second \<^verbatim>\<open>finalize\<close> fails with a broken pipe: the call throws that
  failure to its caller, and no \<^verbatim>\<open>exit\<close> command is sent.
\<close>

theorem second_finalize_counterexample:
  "finalize Written True running = (Returned, torn_down)
   \<and> fst (finalize (WriteFailed ''Broken pipe'') True torn_down) = Thrown (GLibError ''Broken pipe'')
   \<and> child_stdin (snd (finalize (WriteFailed ''Broken pipe'') True torn_down)) = child_stdin torn_down"
  by (simp add: torn_down_def finalize_def wait_def Let_def running_eq)

text \<open>
  Claim C4, amended. A \<^verbatim>\<open>finalize\<close> whose write succeeds sends exactly one \<^verbatim>\<open>exit\<close>
  command, terminated by a newline, and returns only with the child exited: at once if
  the child had exited already, never if the child does not exit. A \<^verbatim>\<open>finalize\<close> whose
  write fails throws the failure to its caller, having sent nothing and without
  waiting; it does not block. So a second call never hangs, and it throws when its
  write fails.
\<close>

theorem finalize_sends_exit_and_waits:
  "child_stdin (snd (finalize Written exits s)) = child_stdin s @ [''exit'' @ newline]
   \<and> fst (finalize Written exits s) = (if reaped s \<or> exits then Returned else Blocked)
   \<and> reaped (snd (finalize Written exits s)) = (reaped s \<or> exits)
   \<and> fst (finalize (WriteFailed m) exits s) = Thrown (GLibError m)
   \<and> child_stdin (snd (finalize (WriteFailed m) exits s)) = child_stdin s
   \<and> reaped (snd (finalize (WriteFailed m) exits s)) = reaped s"
  by (simp add: finalize_def wait_def Let_def)

theorem finalize_sends_exit_and_waits_witness:
  "child_stdin torn_down = [''exit'' @ newline]
   \<and> fst (finalize Written True running) = Returned
   \<and> reaped torn_down
   \<and> fst (finalize Written False torn_down) = Returned
   \<and> fst (finalize Written False running) = Blocked
   \<and> fst (finalize (WriteFailed ''Broken pipe'') False torn_down) = Thrown (GLibError ''Broken pipe'')"
  using finalize_sends_exit_and_waits [of True running]
    finalize_sends_exit_and_waits [of False torn_down "''Broken pipe''"]
    finalize_sends_exit_and_waits [of False running]
  by (simp add: torn_down_def running_eq)

subsection \<open>When the read loops end\<close>

text \<open>
  Claim C6 does not hold as stated. On the object just built, a read of the child's
  output that completes because the stream is closed does not end the loop: a next read
  is outstanding, the owner's change callback has been called, and the same happens
  again at the next such completion.
\<close>

theorem stdout_closed_counterexample:
  "input_reading (stdout_ready Eof running)
   \<and> owner (stdout_ready Eof running) = [On_change]
   \<and> owner (stdout_ready Eof (stdout_ready Eof running)) = [On_change, On_change]"
  by (simp add: running_eq stdout_ready_def listen_input_resume_def listen_input_def
      on_change_def Let_def)

text \<open>
  Claim C6, amended. The loop on the child's output is ended by the flag, not by what a
  read delivers. While a read is outstanding, its completion leaves a next read
  outstanding exactly when the flag is clear. Once \<^verbatim>\<open>finalize\<close> has been called, the
  next completion (the end of the stream as any other) ends the loop: the owner is not
  called, and no read of the output is outstanding whatever happens later.
\<close>

theorem input_loop_ends_by_flag:
  assumes "input_reading s"
  shows "input_reading (stdout_ready r s) = (\<not> end_listen (obj s))
       \<and> \<not> input_reading (run tr es (stdout_ready r (snd (finalize wo exits s))))
       \<and> owner (stdout_ready r (snd (finalize wo exits s))) = owner s"
proof -
  have a: "input_reading (stdout_ready r s) = (\<not> end_listen (obj s))"
    using assms
    by (simp add: stdout_ready_def listen_input_resume_def listen_input_def Let_def)
  have "\<not> input_reading (stdout_ready r (snd (finalize wo exits s)))"
    by (simp add: stdout_ready_def listen_input_resume_def listen_input_def Let_def
        finalize_obj)
  then have b: "\<not> input_reading (run tr es (stdout_ready r (snd (finalize wo exits s))))"
    by (rule run_not_reading)
  have c: "owner (stdout_ready r (snd (finalize wo exits s))) = owner s"
    by (simp add: stdout_ready_def listen_input_resume_def listen_input_def Let_def
        finalize_obj finalize_rest)
  from a b c show ?thesis by simp
qed

theorem input_loop_ends_by_flag_witness:
  "input_reading running
   \<and> input_reading (stdout_ready Eof running)
   \<and> \<not> input_reading (run id buffered_events (stdout_ready Eof torn_down))
   \<and> owner (stdout_ready Eof torn_down) = []"
proof -
  have h: "input_reading running" by (simp add: running_eq)
  from h input_loop_ends_by_flag [OF h, of Eof id buffered_events Written True]
  show ?thesis by (simp add: torn_down_def running_eq)
qed

text \<open>
  Claim C7 does not hold as stated. On the object just built, after a failed read of the
  child's error stream the loop goes on: a next read is outstanding, and a second
  failure is reported like the first.
\<close>

theorem stderr_failure_counterexample:
  "error_reading (stderr_ready id (ReadFailed ''Stream is closed'') running)
   \<and> owner (stderr_ready id (ReadFailed ''Stream is closed'') running) =
       [On_error (Failure (GLibError ''Stream is closed''))]
   \<and> owner (stderr_ready id (ReadFailed ''Stream is closed'')
        (stderr_ready id (ReadFailed ''Stream is closed'') running)) =
       [On_error (Failure (GLibError ''Stream is closed'')),
        On_error (Failure (GLibError ''Stream is closed''))]"
  by (simp add: running_eq stderr_ready_def listen_error_resume_def listen_error_def
      on_error_def Let_def)

text \<open>
  Claim C7, amended. When an outstanding read of the child's error stream fails, the
  error callback is called once with the failure caught, and the loop then tests the
  flag: a next read is outstanding exactly when the flag is clear. Nothing else changes:
  the object, the loop on the child's output and the commands sent are as they were.
\<close>

theorem error_read_failure_keeps_loop:
  assumes "error_reading s"
  shows "stderr_ready tr (ReadFailed m) s =
           s\<lparr>owner := callback_for_errors (obj s) (Failure (GLibError m)) (owner s),
             error_reading := \<not> end_listen (obj s)\<rparr>"
  using assms
  by (simp add: stderr_ready_def listen_error_resume_def listen_error_def Let_def)

theorem error_read_failure_keeps_loop_witness:
  "error_reading running
   \<and> stderr_ready id (ReadFailed ''Stream is closed'') running =
       running\<lparr>owner := [On_error (Failure (GLibError ''Stream is closed''))]\<rparr>
   \<and> error_reading torn_down
   \<and> stderr_ready id (ReadFailed ''Stream is closed'') torn_down =
       torn_down\<lparr>owner := [On_error (Failure (GLibError ''Stream is closed''))],
         error_reading := False\<rparr>"
proof -
  have h: "error_reading running" "error_reading torn_down"
    by (simp_all add: torn_down_def finalize_rest running_eq)
  from h error_read_failure_keeps_loop [OF h(1), of id "''Stream is closed''"]
    error_read_failure_keeps_loop [OF h(2), of id "''Stream is closed''"]
  show ?thesis
    by (simp add: torn_down_def finalize_obj finalize_rest running_eq on_error_def)
qed

end
